theory Spec2Isabelle
  imports Main "HOL-Library.Sublist"
begin

section \<open>Values, exceptions and observable effects\<close>

text \<open>
  The root component \<open>App\<close> of \<open>App.js\<close> is embedded as follows. Every call
  that leaves the component (a state setter, an Expo, Firebase, Sentry or storage call,
  a console line, a timer) is an \<open>action\<close>; a function of the source becomes a
  function that returns the actions it performs, in program order. What an external call
  answers (a value, or a rejection) is read from an environment record, so that every
  \<open>try\<close>/\<open>catch\<close> of the source is a branch of the model.
\<close>

text \<open>
  A JavaScript value that can be thrown or handed to a handler: \<open>undefined\<close>,
  \<open>null\<close>, a string, or an object. Of an object the model keeps the properties the
  component reads (\<open>reason\<close>, which is \<open>JUndefined\<close> when absent, \<open>message\<close>
  and \<open>stack\<close>, which are \<open>None\<close> when absent) and what \<open>String(_)\<close> does with
  it: \<open>None\<close> when the conversion throws, as it does for \<open>Object.create(null)\<close> or
  a throwing \<open>toString\<close>. The properties are plain data: reading one does not throw.
\<close>

datatype js_value =
    JUndefined
  | JNull
  | JString string
  | JObject (obj_reason: js_value) (obj_message: "string option") (obj_stack: "string option")
      (obj_string: "string option")

datatype exn = TypeError | Rejected string

text \<open>Truthiness, as \<open>||\<close>, \<open>!\<close> and \<open>if\<close> read a value.\<close>

fun truthy :: "js_value \<Rightarrow> bool" where
  "truthy JUndefined = False"
| "truthy JNull = False"
| "truthy (JString s) = (s \<noteq> [])"
| "truthy (JObject r m st s) = True"

text \<open>
  Property reads \<open>v.reason\<close>, \<open>v.message\<close> and \<open>v.stack\<close>: a TypeError on
  \<open>undefined\<close> and \<open>null\<close>, \<open>undefined\<close> on a string.
\<close>

fun get_reason :: "js_value \<Rightarrow> exn + js_value" where
  "get_reason JUndefined = Inl TypeError"
| "get_reason JNull = Inl TypeError"
| "get_reason (JString s) = Inr JUndefined"
| "get_reason (JObject r m st s) = Inr r"

fun get_message :: "js_value \<Rightarrow> exn + string option" where
  "get_message JUndefined = Inl TypeError"
| "get_message JNull = Inl TypeError"
| "get_message (JString s) = Inr None"
| "get_message (JObject r m st s) = Inr m"

fun get_stack :: "js_value \<Rightarrow> exn + string option" where
  "get_stack JUndefined = Inl TypeError"
| "get_stack JNull = Inl TypeError"
| "get_stack (JString s) = Inr None"
| "get_stack (JObject r m st s) = Inr st"

text \<open>\<open>String(v)\<close>: a TypeError for an object that has no conversion to a string.\<close>

fun String_of :: "js_value \<Rightarrow> exn + string" where
  "String_of JUndefined = Inr ''undefined''"
| "String_of JNull = Inr ''null''"
| "String_of (JString s) = Inr s"
| "String_of (JObject r m st None) = Inl TypeError"
| "String_of (JObject r m st (Some s)) = Inr s"

text \<open>\<open>p || d\<close> for an optional string property \<open>p\<close>: the empty string is falsy too.\<close>

fun or_else :: "string option \<Rightarrow> string \<Rightarrow> string" where
  "or_else None d = d"
| "or_else (Some s) d = (if s = [] then d else s)"

text \<open>
  \<open>error.message || String(error)\<close> (lines 128 and 152): the read of \<open>message\<close>
  comes first, and \<open>String(error)\<close> is evaluated only when the message is falsy.
\<close>

definition message_text :: "js_value \<Rightarrow> exn + string" where
  "message_text error =
     (case get_message error of
        Inl e \<Rightarrow> Inl e
      | Inr None \<Rightarrow> String_of error
      | Inr (Some s) \<Rightarrow> (if s = [] then String_of error else Inr s))"

datatype route = Login | MainApp

datatype action =
    SetLoadingMessage string
  | SetInitialRouteName route
  | SetIsReady bool
  | SetAuthChecked bool
  | CheckForUpdateAsync
  | FetchUpdateAsync
  | ReloadAsync
  | NetInfoFetch
  | Sleep int
  | RegisterForPushNotifications
  | SetupNotificationListeners
  | StopAllListeners
  | ConsoleLog string
  | ConsoleError string
  | SentryCaptureException
  | AlertAlert string string
  | AsyncStorageGetItem
  | AsyncStorageSetItem

text \<open>
  What the world outside the component answers. \<open>DEV\<close> is \<open>__DEV__\<close>;
  \<open>SENTRY_DSN\<close> says whether \<open>process.env.EXPO_PUBLIC_SENTRY_DSN\<close> is truthy.
  A field of type \<open>exn option\<close> is \<open>Some e\<close> when the call throws (or its promise
  rejects with) \<open>e\<close>. \<open>registerForPushNotifications\<close> is \<open>Some v\<close> when its
  promise rejects with the value \<open>v\<close>: line 310 reads \<open>v.message\<close>, so the value
  matters there, as it does in no other \<open>catch\<close> of the component. \<open>elapsed\<close> is
  \<open>Date.now() - startTime\<close> as line 325 reads it.
\<close>

record env =
  DEV :: bool
  SENTRY_DSN :: bool
  now_iso :: string
  getItem_rejects :: "exn option"
  setItem_rejects :: "exn option"
  captureException_throws :: "exn option"
  checkForUpdateAsync :: "exn + bool"
  fetchUpdateAsync :: "exn option"
  reloadAsync :: "exn option"
  netinfo_fetch :: "exn + bool"
  registerForPushNotifications :: "js_value option"
  setupNotificationListeners :: "exn option"
  elapsed :: int

section \<open>The local error log (\<open>logErrorToStorage\<close>, lines 121-136)\<close>

record log_entry =
  timestamp :: string
  context_ :: string
  message :: string
  stack :: string

text \<open>
  The value stored under the key \<open>error_logs\<close>: \<open>None\<close> while the key is absent
  (\<open>getItem\<close> answers \<open>null\<close>), else the array that \<open>JSON.parse\<close> reads back.
  The component writes the key in \<open>logErrorToStorage\<close> only, so what is read is
  what \<open>JSON.stringify\<close> wrote.
\<close>

type_synonym storage = "log_entry list option"

text \<open>\<open>xs.slice(-n)\<close>: the last \<open>n\<close> elements, all of them when there are fewer.\<close>

definition slice_last :: "nat \<Rightarrow> 'a list \<Rightarrow> 'a list" where
  "slice_last n xs = drop (length xs - n) xs"

definition stored_logs :: "storage \<Rightarrow> log_entry list" where
  "stored_logs store = (case store of None \<Rightarrow> [] | Some logs \<Rightarrow> logs)"


text \<open>
  Lines 125-130, the object that is pushed. Building it throws when \<open>error\<close> is
  \<open>null\<close> or \<open>undefined\<close>, or when its message is falsy and \<open>String(error)\<close>
  throws.
\<close>

definition new_entry :: "env \<Rightarrow> js_value \<Rightarrow> string \<Rightarrow> exn + log_entry" where
  "new_entry ev error ctx =
     (case message_text error of
        Inl e \<Rightarrow> Inl e
      | Inr text \<Rightarrow>
          (case get_stack error of
             Inl e \<Rightarrow> Inl e
           | Inr st \<Rightarrow>
               Inr \<lparr>timestamp = now_iso ev, context_ = ctx, message = text,
                    stack = or_else st ''No stack trace''\<rparr>))"

text \<open>
  \<open>logErrorToStorage\<close> is an \<open>async\<close> function and no caller awaits it. A call
  runs up to the first \<open>await\<close> (it has asked for \<open>getItem\<close>) and hands back a
  promise; the rest runs later, in two resumptions, each when the awaited storage call
  has settled. A \<open>log_task\<close> is what one call has still to do: it holds the
  environment and arguments of the call, or the array it has passed to \<open>setItem\<close>;
  \<open>Fulfilled\<close> and \<open>RejectedWith\<close> are the two ways its promise can settle.
\<close>

datatype log_task =
    AwaitingGetItem env js_value string
  | AwaitingSetItem env "log_entry list"
  | Fulfilled
  | RejectedWith exn

definition logErrorToStorage :: "env \<Rightarrow> js_value \<Rightarrow> string \<Rightarrow> action list \<times> log_task" where
  "logErrorToStorage ev error ctx = ([AsyncStorageGetItem], AwaitingGetItem ev error ctx)"

text \<open>
  Lines 123-132 once \<open>getItem\<close> has settled, up to the call of \<open>setItem\<close>: the
  array handed to \<open>setItem\<close>, or what is thrown inside the \<open>try\<close>. \<open>store\<close> is
  what \<open>getItem\<close> read.
\<close>

definition after_getItem :: "env \<Rightarrow> storage \<Rightarrow> js_value \<Rightarrow> string \<Rightarrow> exn + log_entry list" where
  "after_getItem ev store error ctx =
     (case getItem_rejects ev of
        Some e \<Rightarrow> Inl e
      | None \<Rightarrow>
          (case new_entry ev error ctx of
             Inl e \<Rightarrow> Inl e
           | Inr entry \<Rightarrow> Inr (slice_last 50 (stored_logs store @ [entry]))))"

text \<open>
  One resumption of a task against the stored log as it is at that moment: the stored
  log afterwards, the task afterwards and the actions performed. The \<open>catch\<close> of
  line 133 takes whatever the \<open>try\<close> throws, writes its console line and the promise
  is fulfilled.
\<close>

fun resume :: "storage \<Rightarrow> log_task \<Rightarrow> storage \<times> log_task \<times> action list" where
  "resume store (AwaitingGetItem ev error ctx) =
     (case after_getItem ev store error ctx of
        Inl e \<Rightarrow> (store, Fulfilled, [ConsoleError ''Failed to log error to storage:''])
      | Inr logs \<Rightarrow> (store, AwaitingSetItem ev logs, [AsyncStorageSetItem]))"
| "resume store (AwaitingSetItem ev logs) =
     (case setItem_rejects ev of
        Some e \<Rightarrow> (store, Fulfilled, [ConsoleError ''Failed to log error to storage:''])
      | None \<Rightarrow> (Some logs, Fulfilled, []))"
| "resume store Fulfilled = (store, Fulfilled, [])"
| "resume store (RejectedWith e) = (store, RejectedWith e, [])"

text \<open>A task resumed twice with nothing else touching the stored log in between.\<close>

definition run_alone :: "storage \<Rightarrow> log_task \<Rightarrow> storage \<times> log_task \<times> action list" where
  "run_alone store task =
     (case resume store task of
        (store1, task1, acts1) \<Rightarrow>
          (case resume store1 task1 of
             (store2, task2, acts2) \<Rightarrow> (store2, task2, acts1 @ acts2)))"

text \<open>
  The stored log together with the calls of \<open>logErrorToStorage\<close> made so far. An
  event is a new call or the next resumption of one task; any order of events is allowed,
  so a call may be made, and may read the log, before an earlier one has written it.
\<close>

record log_world =
  error_logs :: storage
  tasks :: "log_task list"
  console :: "action list"

datatype log_event = Call env js_value string | Resume nat

fun log_step :: "log_event \<Rightarrow> log_world \<Rightarrow> log_world" where
  "log_step (Call ev error ctx) w =
     (case logErrorToStorage ev error ctx of
        (acts, task) \<Rightarrow> w\<lparr>tasks := tasks w @ [task], console := console w @ acts\<rparr>)"
| "log_step (Resume i) w =
     (if length (tasks w) \<le> i then w
      else case resume (error_logs w) (tasks w ! i) of
             (store', task', acts) \<Rightarrow>
               w\<lparr>error_logs := store', tasks := (tasks w)[i := task'],
                 console := console w @ acts\<rparr>)"

definition run_log :: "log_event list \<Rightarrow> log_world \<Rightarrow> log_world" where
  "run_log evs w = fold log_step evs w"

definition fresh_world :: "storage \<Rightarrow> log_world" where
  "fresh_world store = \<lparr>error_logs = store, tasks = [], console = []\<rparr>"



text \<open>Whether the promise of a call has been rejected.\<close>

fun task_rejected :: "log_task \<Rightarrow> bool" where
  "task_rejected (RejectedWith e) = True"
| "task_rejected t = False"

section \<open>The global handlers (lines 139-182)\<close>

text \<open>
  What a call of a handler comes to: the actions it performed, the calls of
  \<open>logErrorToStorage\<close> it started, and what it threw to its caller, if anything.
  \<open>console\<close> and \<open>Alert.alert\<close> are taken not to throw.
\<close>

record outcome =
  performed :: "action list"
  started :: "log_task list"
  thrown :: "exn option"

text \<open>
  Lines 143-149 and 160-166: the report to Sentry, made only when the DSN is configured,
  inside its own \<open>try\<close>/\<open>catch\<close>.
\<close>

definition report_to_sentry :: "env \<Rightarrow> action list" where
  "report_to_sentry ev =
     (if SENTRY_DSN ev
      then SentryCaptureException #
           (case captureException_throws ev of
              Some e \<Rightarrow> [ConsoleError ''Sentry error:'']
            | None \<Rightarrow> [])
      else [])"

definition handleGlobalError :: "env \<Rightarrow> js_value \<Rightarrow> bool \<Rightarrow> outcome" where
  "handleGlobalError ev error isFatal =
     (case logErrorToStorage ev error (if isFatal then ''Fatal Error'' else ''Non-Fatal Error'') of
        (asked, task) \<Rightarrow>
          \<lparr>performed =
             [ConsoleError ''Global error caught:''] @ asked @ report_to_sentry ev @
             (if isFatal \<and> \<not> DEV ev then [ConsoleError ''Fatal error prevented app crash''] else []),
           started = [task], thrown = None\<rparr>)"

text \<open>
  Line 140, \<open>event.reason || event\<close>: the read of \<open>reason\<close> throws when the event is
  \<open>null\<close> or \<open>undefined\<close>.
\<close>

definition event_error :: "js_value \<Rightarrow> exn + js_value" where
  "event_error event =
     (case get_reason event of
        Inl e \<Rightarrow> Inl e
      | Inr r \<Rightarrow> Inr (if truthy r then r else event))"

text \<open>
  Lines 139-154. Line 140 and the argument of \<open>Alert.alert\<close> at line 152 stand
  outside any \<open>try\<close>: what they throw goes to the caller, at line 152 after the console
  line, the call of \<open>logErrorToStorage\<close> and the report have been made.
\<close>

definition handleUnhandledRejection :: "env \<Rightarrow> js_value \<Rightarrow> outcome" where
  "handleUnhandledRejection ev event =
     (case event_error event of
        Inl e \<Rightarrow> \<lparr>performed = [], started = [], thrown = Some e\<rparr>
      | Inr error \<Rightarrow>
          (case logErrorToStorage ev error ''Unhandled Promise Rejection'' of
             (asked, task) \<Rightarrow>
               (let done_so_far =
                      [ConsoleError ''Unhandled promise rejection:''] @ asked @ report_to_sentry ev
                in if DEV ev
                   then (case message_text error of
                           Inl e \<Rightarrow> \<lparr>performed = done_so_far, started = [task], thrown = Some e\<rparr>
                         | Inr text \<Rightarrow>
                             \<lparr>performed = done_so_far @ [AlertAlert ''Unhandled Error'' text],
                              started = [task], thrown = None\<rparr>)
                   else \<lparr>performed = done_so_far, started = [task], thrown = None\<rparr>)))"

text \<open>
  Lines 175-177: the only registration. \<open>handleUnhandledRejection\<close> is defined and
  never registered (the source says why at lines 179-181).
\<close>

datatype handler = HandleGlobalError | HandleUnhandledRejection

definition installed_handlers :: "bool \<Rightarrow> handler list" where
  "installed_handlers errorUtils_defined = (if errorUtils_defined then [HandleGlobalError] else [])"

section \<open>The startup sequence (\<open>initializeApp\<close>, lines 235-348)\<close>

text \<open>
  \<open>initializeApp\<close> is a closure of the render whose effect starts it: inside it,
  \<open>authChecked\<close> and \<open>initialRouteName\<close> are the \<open>const\<close> bindings of that
  render (lines 68 and 70), so one run reads the same two values from start to end.
\<close>

record closure =
  c_authChecked :: bool
  c_initialRouteName :: "route option"

text \<open>How a block of statements ends: it falls through, it returns, or it throws.\<close>

datatype flow = Proceeds | Returns | Throws exn

definition authCheckInterval :: int where
  "authCheckInterval = 100"

definition maxAuthWait :: int where
  "maxAuthWait = 5000"

definition minDisplayTime :: int where
  "minDisplayTime = 2000"

text \<open>
  Lines 261-271, the \<open>catch\<close> of the update check: the report to Sentry sits in a
  \<open>try\<close> with an empty \<open>catch\<close>, so nothing escapes from here.
\<close>

definition update_catch :: "env \<Rightarrow> action list" where
  "update_catch ev =
     ConsoleError ''Update check failed:'' # (if SENTRY_DSN ev then [SentryCaptureException] else [])"

text \<open>
  Lines 243-272. \<open>checkForUpdateAsync\<close>, \<open>fetchUpdateAsync\<close> and
  \<open>reloadAsync\<close> are awaited inside one \<open>try\<close>: a rejection of any of them lands in
  \<open>update_catch\<close> and the sequence goes on. When \<open>reloadAsync\<close> does not reject, the
  application reloads; line 257 returns.
\<close>

definition check_for_updates :: "env \<Rightarrow> action list \<times> flow" where
  "check_for_updates ev =
     (if DEV ev then ([], Proceeds)
      else
        (let checked = [SetLoadingMessage ''Checking for updates...'', CheckForUpdateAsync];
             fetched = checked @ [ConsoleLog ''Update available, fetching...'',
                                  SetLoadingMessage ''Downloading update...'', FetchUpdateAsync];
             reloading = fetched @ [ConsoleLog ''Update downloaded, reloading app...'', ReloadAsync]
         in case checkForUpdateAsync ev of
              Inl e \<Rightarrow> (checked @ update_catch ev, Proceeds)
            | Inr isAvailable \<Rightarrow>
                if isAvailable
                then (case fetchUpdateAsync ev of
                        Some e \<Rightarrow> (fetched @ update_catch ev, Proceeds)
                      | None \<Rightarrow>
                          (case reloadAsync ev of
                             Some e \<Rightarrow> (reloading @ update_catch ev, Proceeds)
                           | None \<Rightarrow> (reloading, Returns)))
                else (checked @ [ConsoleLog ''App is up to date''], Proceeds)))"

text \<open>
  Lines 290-297, the poll loop. \<open>authChecked\<close> is the closure's constant; each
  iteration awaits a timer of \<open>authCheckInterval\<close> milliseconds.
\<close>

function auth_wait_loop :: "bool \<Rightarrow> int \<Rightarrow> action list" where
  "auth_wait_loop authChecked authWaitTime =
     (if \<not> authChecked \<and> authWaitTime < maxAuthWait
      then Sleep authCheckInterval # auth_wait_loop authChecked (authWaitTime + authCheckInterval)
      else [])"
  by pat_completeness auto
termination
  by (relation "measure (\<lambda>(a, t). nat (maxAuthWait - t))")
     (auto simp: maxAuthWait_def authCheckInterval_def)

declare auth_wait_loop.simps [simp del]

text \<open>Lines 324-334: the minimum display time, then \<open>setIsReady(true)\<close>.\<close>

definition pacing :: "int \<Rightarrow> action list" where
  "pacing el =
     (let remainingTime = max 0 (minDisplayTime - el)
      in (if remainingTime > 0
          then [SetLoadingMessage ''Almost ready...'', Sleep remainingTime]
          else []) @ [SetIsReady True])"

text \<open>
  Lines 274-303, from the connectivity probe to the default of the route, once the probe
  has answered \<open>isConnected\<close>. The route is defaulted when the closure's
  \<open>initialRouteName\<close> is \<open>null\<close>.
\<close>

definition before_registration :: "closure \<Rightarrow> bool \<Rightarrow> action list" where
  "before_registration cl isConnected =
     [NetInfoFetch] @
     (if \<not> isConnected then [ConsoleLog ''App starting in offline mode''] else []) @
     [Sleep 500, SetLoadingMessage ''Checking authentication...''] @
     auth_wait_loop (c_authChecked cl) 0 @
     (if c_initialRouteName cl = None
      then [ConsoleLog ''Auth check completed, defaulting to Login screen'',
            SetInitialRouteName Login]
      else [])"

text \<open>
  Lines 305-311. A rejection of \<open>registerForPushNotifications\<close> is caught at line
  309, and line 310 reads \<open>error.message\<close> of the value caught: when that value is
  \<open>null\<close> or \<open>undefined\<close> the read throws inside the \<open>catch\<close>, and the
  TypeError leaves for the handler of the sequence.
\<close>

definition register_push :: "env \<Rightarrow> action list \<times> flow" where
  "register_push ev =
     (case registerForPushNotifications ev of
        None \<Rightarrow>
          ([SetLoadingMessage ''Setting up notifications...'', RegisterForPushNotifications],
           Proceeds)
      | Some error \<Rightarrow>
          (case get_message error of
             Inl e \<Rightarrow>
               ([SetLoadingMessage ''Setting up notifications...'', RegisterForPushNotifications],
                Throws e)
           | Inr m \<Rightarrow>
               ([SetLoadingMessage ''Setting up notifications...'', RegisterForPushNotifications,
                 ConsoleLog ''Push notification setup error:''],
                Proceeds)))"

text \<open>
  Lines 274-339. The dynamic import and \<open>NetInfo.default.fetch()\<close> are one action;
  either may reject, which the outer \<open>catch\<close> receives, and so may
  \<open>setupNotificationListeners\<close>, which is called outside any inner \<open>try\<close>.
\<close>

definition after_update_check :: "closure \<Rightarrow> env \<Rightarrow> action list \<times> flow" where
  "after_update_check cl ev =
     (case netinfo_fetch ev of
        Inl e \<Rightarrow> ([NetInfoFetch], Throws e)
      | Inr isConnected \<Rightarrow>
          (case register_push ev of
             (registered, Throws e) \<Rightarrow> (before_registration cl isConnected @ registered, Throws e)
           | (registered, fl) \<Rightarrow>
               (let upto_listeners =
                      before_registration cl isConnected @ registered @
                      [SetLoadingMessage ''Finalizing...'', SetupNotificationListeners]
                in case setupNotificationListeners ev of
                     Some e \<Rightarrow> (upto_listeners, Throws e)
                   | None \<Rightarrow> (upto_listeners @ pacing (elapsed ev), Returns))))"

text \<open>Lines 239-339, the \<open>try\<close> block as a whole.\<close>

definition try_block :: "closure \<Rightarrow> env \<Rightarrow> action list \<times> flow" where
  "try_block cl ev =
     (case check_for_updates ev of
        (acts, Proceeds) \<Rightarrow>
          (case after_update_check cl ev of
             (later, fl) \<Rightarrow> (SetLoadingMessage ''Loading assets...'' # acts @ later, fl))
      | (acts, fl) \<Rightarrow> (SetLoadingMessage ''Loading assets...'' # acts, fl))"

text \<open>Lines 340-347, the handler of the sequence.\<close>

definition catch_block :: "closure \<Rightarrow> action list" where
  "catch_block cl =
     [ConsoleError ''Error initializing app:''] @
     (if c_initialRouteName cl = None then [SetInitialRouteName Login] else []) @
     [SetIsReady True]"

definition initializeApp :: "closure \<Rightarrow> env \<Rightarrow> action list" where
  "initializeApp cl ev =
     (case try_block cl ev of
        (acts, Throws e) \<Rightarrow> acts @ catch_block cl
      | (acts, fl) \<Rightarrow> acts)"

section \<open>The component state and the auth listener (lines 67-70 and 185-232)\<close>

record app_state =
  isReady :: bool
  initialRouteName :: "route option"
  loadingMessage :: string
  authChecked :: bool

definition initial_state :: app_state where
  "initial_state =
     \<lparr>isReady = False, initialRouteName = None, loadingMessage = ''Initializing...'',
      authChecked = False\<rparr>"

text \<open>Only the four setters change the component state.\<close>

fun apply_action :: "action \<Rightarrow> app_state \<Rightarrow> app_state" where
  "apply_action (SetLoadingMessage m) s = s\<lparr>loadingMessage := m\<rparr>"
| "apply_action (SetInitialRouteName r) s = s\<lparr>initialRouteName := Some r\<rparr>"
| "apply_action (SetIsReady b) s = s\<lparr>isReady := b\<rparr>"
| "apply_action (SetAuthChecked b) s = s\<lparr>authChecked := b\<rparr>"
| "apply_action a s = s"

text \<open>
  The auth effect's closure: \<open>hasSetInitialRoute\<close> is its local variable (line 186),
  \<open>a_isReady\<close> the \<open>isReady\<close> of the render that subscribed.
\<close>

record auth_closure =
  hasSetInitialRoute :: bool
  a_isReady :: bool

definition set_route_once :: "route \<Rightarrow> auth_closure \<Rightarrow> action list \<times> auth_closure" where
  "set_route_once r c =
     (if \<not> hasSetInitialRoute c \<and> \<not> a_isReady c
      then ([SetInitialRouteName r], c\<lparr>hasSetInitialRoute := True\<rparr>)
      else ([], c))"

text \<open>What the Auth Service delivers: a user, no user, or an error.\<close>

datatype auth_event = User | NoUser | AuthFailure

fun auth_callback :: "auth_event \<Rightarrow> auth_closure \<Rightarrow> action list \<times> auth_closure" where
  "auth_callback User c =
     (case set_route_once MainApp c of
        (acts, c') \<Rightarrow>
          ([ConsoleLog ''Auth state changed: Logged in'', ConsoleLog ''User authenticated''] @
           acts @ [SetAuthChecked True], c'))"
| "auth_callback NoUser c =
     (case set_route_once Login c of
        (acts, c') \<Rightarrow>
          ([ConsoleLog ''Auth state changed: Logged out'',
            ConsoleLog ''User logged out, stopping listeners'', StopAllListeners] @
           acts @ [SetAuthChecked True], c'))"
| "auth_callback AuthFailure c =
     (case set_route_once Login c of
        (acts, c') \<Rightarrow>
          ([ConsoleError ''Auth state change error:''] @ acts @ [SetAuthChecked True], c'))"

section \<open>A launch: the effects, their re-runs and the interleaving\<close>

text \<open>
  One launch of the component. \<open>runs\<close> holds, for every run of \<open>initializeApp\<close>
  started so far, the actions it has still to perform; \<open>executed\<close> is what has been
  performed, in order. The rules of React used here: an effect runs after the first
  render, and again after a render in which one of its dependencies differs from the
  render before; each run of an effect is a new closure over the values of its render.
  So the effect of lines 234-351 (dependencies \<open>[authChecked]\<close>) starts a run of
  \<open>initializeApp\<close> at launch and at every change of \<open>authChecked\<close>, and the effect of
  lines 185-232 (dependencies \<open>[isReady]\<close>) cleans up and subscribes again, with a fresh
  \<open>hasSetInitialRoute\<close>, at every change of \<open>isReady\<close>. Neither effect cancels a run of
  \<open>initializeApp\<close> that is under way: the effect callback returns nothing.

  An event is a delivery of the Auth Service or the next action of one run; any order
  of events is allowed, which covers every timing of the timers and promises. After
  \<open>reloadAsync\<close> has been called and has not rejected, nothing runs any more.
\<close>

record system =
  state :: app_state
  listener :: auth_closure
  runs :: "action list list"
  executed :: "action list"
  reloaded :: bool

datatype event = Auth auth_event | RunStep nat

definition start_run :: "(nat \<Rightarrow> env) \<Rightarrow> system \<Rightarrow> system" where
  "start_run envs s =
     s\<lparr>runs := runs s @
          [initializeApp \<lparr>c_authChecked = authChecked (state s),
                          c_initialRouteName = initialRouteName (state s)\<rparr>
             (envs (length (runs s)))]\<rparr>"

definition resubscribe :: "system \<Rightarrow> system" where
  "resubscribe s =
     s\<lparr>listener := \<lparr>hasSetInitialRoute = False, a_isReady = isReady (state s)\<rparr>,
       executed := executed s @ [StopAllListeners]\<rparr>"

definition rerender :: "(nat \<Rightarrow> env) \<Rightarrow> app_state \<Rightarrow> system \<Rightarrow> system" where
  "rerender envs old s =
     (let s1 = (if isReady (state s) \<noteq> isReady old then resubscribe s else s)
      in if authChecked (state s1) \<noteq> authChecked old then start_run envs s1 else s1)"

definition perform :: "action list \<Rightarrow> system \<Rightarrow> system" where
  "perform acts s =
     s\<lparr>state := fold apply_action acts (state s), executed := executed s @ acts\<rparr>"

fun step :: "(nat \<Rightarrow> env) \<Rightarrow> event \<Rightarrow> system \<Rightarrow> system" where
  "step envs (Auth a) s =
     (if reloaded s then s
      else case auth_callback a (listener s) of
             (acts, c') \<Rightarrow> rerender envs (state s) (perform acts (s\<lparr>listener := c'\<rparr>)))"
| "step envs (RunStep i) s =
     (if reloaded s \<or> length (runs s) \<le> i then s
      else case runs s ! i of
             [] \<Rightarrow> s
           | a # rest \<Rightarrow>
               rerender envs (state s)
                 ((perform [a] (s\<lparr>runs := (runs s)[i := rest]\<rparr>))
                    \<lparr>reloaded := (a = ReloadAsync \<and> reloadAsync (envs i) = None)\<rparr>))"

definition launch :: "(nat \<Rightarrow> env) \<Rightarrow> system" where
  "launch envs =
     start_run envs
       \<lparr>state = initial_state,
        listener = \<lparr>hasSetInitialRoute = False, a_isReady = False\<rparr>,
        runs = [], executed = [], reloaded = False\<rparr>"

definition run_events :: "(nat \<Rightarrow> env) \<Rightarrow> event list \<Rightarrow> system \<Rightarrow> system" where
  "run_events envs evs s = fold (step envs) evs s"

text \<open>An environment in which every external call succeeds, for a development build.\<close>

definition quiet_env :: env where
  "quiet_env =
     \<lparr>DEV = True, SENTRY_DSN = False, now_iso = ''2025-11-17T00:00:00.000Z'',
      getItem_rejects = None, setItem_rejects = None, captureException_throws = None,
      checkForUpdateAsync = Inr False, fetchUpdateAsync = None, reloadAsync = None,
      netinfo_fetch = Inr True, registerForPushNotifications = None,
      setupNotificationListeners = None, elapsed = 800\<rparr>"

section \<open>Inputs used in the examples\<close>

text \<open>The closure of the first render: nothing checked, no route.\<close>

definition mount_closure :: closure where
  "mount_closure = \<lparr>c_authChecked = False, c_initialRouteName = None\<rparr>"

text \<open>What a trace holds before and after the first occurrence of an action.\<close>

definition actions_before :: "action \<Rightarrow> action list \<Rightarrow> action list" where
  "actions_before a tr = takeWhile (\<lambda>b. b \<noteq> a) tr"

definition actions_after :: "action \<Rightarrow> action list \<Rightarrow> action list" where
  "actions_after a tr = drop 1 (dropWhile (\<lambda>b. b \<noteq> a) tr)"


definition boom :: js_value where
  "boom = JObject JUndefined (Some ''boom'') (Some ''at App.js:1'') (Some ''Error: boom'')"

text \<open>An object with no properties and no conversion to a string, as \<open>Object.create(null)\<close>.\<close>

definition bare_object :: js_value where
  "bare_object = JObject JUndefined None None None"

text \<open>
  A production build with the reporter configured, in which the storage and the reporter
  both fail, and one in which nothing fails.
\<close>

definition failing_env :: env where
  "failing_env =
     quiet_env\<lparr>DEV := False, SENTRY_DSN := True,
       getItem_rejects := Some (Rejected ''storage unavailable''),
       captureException_throws := Some (Rejected ''reporter unavailable'')\<rparr>"

definition production_env :: env where
  "production_env = quiet_env\<lparr>DEV := False, SENTRY_DSN := True\<rparr>"

text \<open>Rejection events: an object whose \<open>reason\<close> is the value the promise rejected with.\<close>

definition rejection_of :: "js_value \<Rightarrow> js_value" where
  "rejection_of v = JObject v None None (Some ''[object Object]'')"

text \<open>The entry that \<open>boom\<close> gets in \<open>quiet_env\<close>, and a full log of 50 numbered entries.\<close>

definition boom_entry :: "string \<Rightarrow> log_entry" where
  "boom_entry ctx =
     \<lparr>timestamp = ''2025-11-17T00:00:00.000Z'', context_ = ctx, message = ''boom'',
      stack = ''at App.js:1''\<rparr>"





text \<open>A launch in which the set-up of the notification listeners throws.\<close>

definition listeners_fail_env :: env where
  "listeners_fail_env =
     quiet_env\<lparr>setupNotificationListeners := Some (Rejected ''notifications unavailable'')\<rparr>"

text \<open>A launch in which \<open>registerForPushNotifications\<close> rejects with \<open>undefined\<close>.\<close>

definition register_rejects_env :: env where
  "register_rejects_env = quiet_env\<lparr>registerForPushNotifications := Some JUndefined\<rparr>"

text \<open>The durations of the timers awaited in a trace, in order.\<close>

fun sleeps :: "action list \<Rightarrow> int list" where
  "sleeps [] = []"
| "sleeps (Sleep d # tr) = d # sleeps tr"
| "sleeps (a # tr) = sleeps tr"

text \<open>
  Production builds in which the update check finds an update: one in which the reload
  goes through, one in which \<open>reloadAsync\<close> rejects.
\<close>

definition update_env :: env where
  "update_env = quiet_env\<lparr>DEV := False, checkForUpdateAsync := Inr True\<rparr>"

definition reload_rejects_env :: env where
  "reload_rejects_env = update_env\<lparr>reloadAsync := Some (Rejected ''ERR_UPDATES_RELOAD'')\<rparr>"

text \<open>
  The invariant of a launch: one run of \<open>initializeApp\<close> while \<open>authChecked\<close> is
  false, two once it is true, and no run that writes \<open>authChecked\<close> itself.
\<close>

definition run_invariant :: "system \<Rightarrow> bool" where
  "run_invariant s =
     (length (runs s) = (if authChecked (state s) then 2 else 1) \<and>
      (\<forall>r \<in> set (runs s). \<forall>b. SetAuthChecked b \<notin> set r))"

text \<open>The routes written by \<open>setInitialRouteName\<close> in a trace, in order.\<close>

fun route_writes :: "action list \<Rightarrow> route list" where
  "route_writes [] = []"
| "route_writes (SetInitialRouteName r # tr) = r # route_writes tr"
| "route_writes (a # tr) = route_writes tr"

text \<open>
  A development launch in which every external call succeeds. The first run reads the
  clock after its full wait (5600 ms after its start), the second 600 ms after its own
  start.
\<close>

definition two_run_envs :: "nat \<Rightarrow> env" where
  "two_run_envs i = (if i = 0 then quiet_env\<lparr>elapsed := 5600\<rparr> else quiet_env\<lparr>elapsed := 600\<rparr>)"

text \<open>
  The Auth Service delivers a user about 300 ms after launch, while the first run awaits
  its settle delay. \<open>early_user_until_ready\<close>: the first run performs its first two
  actions, the user is delivered, the second run (started by the change of
  \<open>authChecked\<close>) performs all of its 11 actions and sets \<open>isReady\<close> at about
  2300 ms, and the new subscription is told the user again. \<open>first_run_rest\<close>: the
  59 actions the first run still has, the last of them at about 5600 ms.
\<close>

definition early_user_until_ready :: "event list" where
  "early_user_until_ready =
     [RunStep 0, RunStep 0, Auth User] @ replicate 11 (RunStep 1) @ [Auth User]"

definition first_run_rest :: "event list" where
  "first_run_rest = replicate 59 (RunStep 0)"

text \<open>
  The Auth Service delivers a user about 5000 ms after launch, when the first run has made
  45 of its 50 polls (its wait began at about 500 ms and ends at about 5500 ms).
  \<open>late_user_until_ready\<close>: 49 actions of the first run, the delivery, and the
  remaining 12 actions of the first run, which sets \<open>isReady\<close> at about 5600 ms; the
  second run, started at 5000 ms, cannot set it before 7000 ms. \<open>late_user_rest\<close>: the
  new subscription is told the user again and the second run performs its 11 actions.
\<close>

definition late_user_until_ready :: "event list" where
  "late_user_until_ready = replicate 49 (RunStep 0) @ [Auth User] @ replicate 12 (RunStep 0)"

definition late_user_rest :: "event list" where
  "late_user_rest = [Auth User] @ replicate 11 (RunStep 1)"

text \<open>
  A launch in which the connectivity probe of the first run rejects, after the Auth
  Service has delivered a user.
\<close>

definition probe_fails_envs :: "nat \<Rightarrow> env" where
  "probe_fails_envs i =
     (if i = 0 then quiet_env\<lparr>netinfo_fetch := Inl (Rejected ''netinfo unavailable'')\<rparr>
      else quiet_env)"

definition user_then_probe_fails :: "event list" where
  "user_then_probe_fails = [RunStep 0, Auth User, RunStep 0]"

definition handler_of_first_run :: "event list" where
  "handler_of_first_run = replicate 3 (RunStep 0)"

section \<open>Facts about the error log\<close>





lemma resume_not_rejected:
  "\<not> task_rejected t \<Longrightarrow> \<not> task_rejected (fst (snd (resume store t)))"
  by (cases t) (auto split: sum.splits option.splits)




lemma never_rejected_step:
  "\<not> list_ex task_rejected (tasks w) \<Longrightarrow> \<not> list_ex task_rejected (tasks (log_step e w))"
proof (cases e)
  case (Call ev error ctx)
  assume "\<not> list_ex task_rejected (tasks w)"
  then show ?thesis by (simp add: Call logErrorToStorage_def)
next
  case (Resume i)
  assume w: "\<not> list_ex task_rejected (tasks w)"
  show ?thesis
  proof (cases "length (tasks w) \<le> i")
    case True
    with w show ?thesis by (simp add: Resume)
  next
    case False
    obtain s' t' acts where r: "resume (error_logs w) (tasks w ! i) = (s', t', acts)"
      by (cases "resume (error_logs w) (tasks w ! i)")
    have "\<not> task_rejected (tasks w ! i)"
      using w False by (auto simp: list_ex_iff)
    then have "\<not> task_rejected t'"
      using resume_not_rejected [of "tasks w ! i" "error_logs w"] r by simp
    with w False r show ?thesis
      using set_update_subset_insert [of "tasks w" i t']
      by (auto simp: Resume list_ex_iff)
  qed
qed

lemma never_rejected_run:
  "\<not> list_ex task_rejected (tasks w) \<Longrightarrow> \<not> list_ex task_rejected (tasks (run_log evs w))"
  unfolding run_log_def by (induction evs arbitrary: w) (simp_all add: never_rejected_step)

lemma run_alone_appends:
  assumes "getItem_rejects ev = None" and "setItem_rejects ev = None"
    and "new_entry ev error ctx = Inr entry"
  shows "run_alone store (AwaitingGetItem ev error ctx) =
           (Some (slice_last 50 (stored_logs store @ [entry])), Fulfilled, [AsyncStorageSetItem])"
  using assms by (simp add: run_alone_def after_getItem_def)

lemma run_alone_fails:
  assumes "getItem_rejects ev \<noteq> None \<or> setItem_rejects ev \<noteq> None \<or> (\<exists>e. new_entry ev error ctx = Inl e)"
  shows "fst (run_alone store (AwaitingGetItem ev error ctx)) = store \<and>
         fst (snd (run_alone store (AwaitingGetItem ev error ctx))) = Fulfilled \<and>
         ConsoleError ''Failed to log error to storage:'' \<in>
           set (snd (snd (run_alone store (AwaitingGetItem ev error ctx))))"
  using assms
  by (auto simp: run_alone_def after_getItem_def split: option.splits sum.splits)

lemma run_alone_fulfilled:
  "fst (snd (run_alone store (AwaitingGetItem ev error ctx))) = Fulfilled"
  by (auto simp: run_alone_def after_getItem_def split: option.splits sum.splits)


lemma handleGlobalError_outcome:
  "handleGlobalError ev error isFatal =
     \<lparr>performed =
        [ConsoleError ''Global error caught:'', AsyncStorageGetItem] @ report_to_sentry ev @
        (if isFatal \<and> \<not> DEV ev then [ConsoleError ''Fatal error prevented app crash''] else []),
      started = [AwaitingGetItem ev error (if isFatal then ''Fatal Error'' else ''Non-Fatal Error'')],
      thrown = None\<rparr>"
  by (simp add: handleGlobalError_def logErrorToStorage_def)

lemma report_to_sentry_capture: "(SentryCaptureException \<in> set (report_to_sentry ev)) = SENTRY_DSN ev"
  by (simp add: report_to_sentry_def split: option.split)

lemma report_to_sentry_no_alert: "AlertAlert t m \<notin> set (report_to_sentry ev)"
  by (simp add: report_to_sentry_def split: option.split)

lemma event_error_throws: "(\<exists>e. event_error event = Inl e) = (event = JNull \<or> event = JUndefined)"
  by (cases event) (simp_all add: event_error_def)

lemma message_text_throws:
  "(\<exists>e. message_text v = Inl e) =
     (v = JNull \<or> v = JUndefined \<or>
      (\<exists>r m st. v = JObject r m st None \<and> (m = None \<or> m = Some [])))"
proof (cases v)
  case (JObject r m st s)
  then show ?thesis
    by (cases m; cases s) (auto simp: message_text_def)
qed (simp_all add: message_text_def)

text \<open>The three ways a call of \<open>handleUnhandledRejection\<close> can go.\<close>

lemma handleUnhandledRejection_null:
  "event_error event = Inl e \<Longrightarrow>
   handleUnhandledRejection ev event = \<lparr>performed = [], started = [], thrown = Some e\<rparr>"
  by (simp add: handleUnhandledRejection_def)

lemma handleUnhandledRejection_alert_throws:
  "event_error event = Inr error \<Longrightarrow> DEV ev \<Longrightarrow> message_text error = Inl e \<Longrightarrow>
   handleUnhandledRejection ev event =
     \<lparr>performed = [ConsoleError ''Unhandled promise rejection:'', AsyncStorageGetItem] @ report_to_sentry ev,
      started = [AwaitingGetItem ev error ''Unhandled Promise Rejection''], thrown = Some e\<rparr>"
  by (simp add: handleUnhandledRejection_def logErrorToStorage_def Let_def)

lemma handleUnhandledRejection_returns:
  "event_error event = Inr error \<Longrightarrow> \<not> DEV ev \<or> message_text error = Inr text \<Longrightarrow>
   handleUnhandledRejection ev event =
     \<lparr>performed = [ConsoleError ''Unhandled promise rejection:'', AsyncStorageGetItem] @ report_to_sentry ev @
        (if DEV ev then [AlertAlert ''Unhandled Error'' text] else []),
      started = [AwaitingGetItem ev error ''Unhandled Promise Rejection''], thrown = None\<rparr>"
  by (auto simp: handleUnhandledRejection_def logErrorToStorage_def Let_def)

lemma handleUnhandledRejection_thrown:
  "(thrown (handleUnhandledRejection ev event) = None) =
     (\<exists>error. event_error event = Inr error \<and> (DEV ev \<longrightarrow> (\<exists>text. message_text error = Inr text)))"
proof (cases "event_error event")
  case (Inl e)
  then show ?thesis by (simp add: handleUnhandledRejection_null)
next
  case (Inr error)
  show ?thesis
  proof (cases "DEV ev")
    case False
    with Inr handleUnhandledRejection_returns [of event error ev] show ?thesis by simp
  next
    case True
    show ?thesis
    proof (cases "message_text error")
      case (Inl e)
      with Inr True handleUnhandledRejection_alert_throws [of event error ev e] show ?thesis by simp
    next
      case msg: (Inr msg)
      with Inr True handleUnhandledRejection_returns [of event error ev msg] show ?thesis by simp
    qed
  qed
qed

section \<open>Facts about the startup sequence\<close>

lemma set_auth_wait_loop: "set (auth_wait_loop a t) \<subseteq> {Sleep authCheckInterval}"
proof (induction a t rule: auth_wait_loop.induct)
  case (1 authChecked authWaitTime)
  show ?case
    using 1 by (subst auth_wait_loop.simps) auto
qed

lemma auth_wait_loop_checked: "auth_wait_loop True t = []"
  by (subst auth_wait_loop.simps) simp

lemma auth_wait_loop_steps:
  "k \<le> 50 \<Longrightarrow> auth_wait_loop False (maxAuthWait - int k * authCheckInterval) = replicate k (Sleep authCheckInterval)"
proof (induction k)
  case 0
  show ?case by (subst auth_wait_loop.simps) simp
next
  case (Suc k)
  have "auth_wait_loop False (maxAuthWait - int (Suc k) * authCheckInterval) =
        Sleep authCheckInterval # auth_wait_loop False (maxAuthWait - int k * authCheckInterval)"
    by (subst auth_wait_loop.simps) (simp add: authCheckInterval_def algebra_simps)
  with Suc show ?case by simp
qed

lemma auth_wait_loop_unchecked: "auth_wait_loop False 0 = replicate 50 (Sleep authCheckInterval)"
  using auth_wait_loop_steps [of 50] by (simp add: maxAuthWait_def authCheckInterval_def)

lemma check_for_updates_flow:
  "snd (check_for_updates ev) = Proceeds \<or> snd (check_for_updates ev) = Returns"
  by (simp add: check_for_updates_def Let_def split: sum.split option.split)

lemma last_pacing: "pacing el \<noteq> [] \<and> last (pacing el) = SetIsReady True"
  by (simp add: pacing_def Let_def)

lemma last_catch_block: "catch_block cl \<noteq> [] \<and> last (catch_block cl) = SetIsReady True"
  by (simp add: catch_block_def)

lemma check_for_updates_Returns:
  "check_for_updates ev = (acts, Returns) \<Longrightarrow> acts \<noteq> [] \<and> last acts = ReloadAsync"
  by (auto simp: check_for_updates_def Let_def split: sum.splits option.splits if_splits)

lemma register_push_flow:
  "snd (register_push ev) = Proceeds \<or> (\<exists>e. snd (register_push ev) = Throws e)"
  by (simp add: register_push_def split: option.split sum.split)

text \<open>How the part after the update check ends, and what it then consists of.\<close>

lemma after_update_check_flow:
  "snd (after_update_check cl ev) = Returns \<or> (\<exists>e. snd (after_update_check cl ev) = Throws e)"
  by (simp add: after_update_check_def Let_def split: sum.split option.split prod.split flow.split)

lemma after_update_check_Returns:
  assumes "after_update_check cl ev = (acts, Returns)"
  shows "\<exists>c reg. netinfo_fetch ev = Inr c \<and> register_push ev = (reg, Proceeds) \<and>
           setupNotificationListeners ev = None \<and>
           acts = before_registration cl c @ reg @
                  [SetLoadingMessage ''Finalizing...'', SetupNotificationListeners] @
                  pacing (elapsed ev)"
proof (cases "netinfo_fetch ev")
  case (Inl e)
  with assms show ?thesis by (simp add: after_update_check_def)
next
  case (Inr c)
  obtain reg fl where r: "register_push ev = (reg, fl)" by (cases "register_push ev")
  from register_push_flow [of ev] r have "fl = Proceeds \<or> (\<exists>e. fl = Throws e)" by simp
  then show ?thesis
  proof
    assume "\<exists>e. fl = Throws e"
    with assms Inr r show ?thesis by (auto simp: after_update_check_def)
  next
    assume p: "fl = Proceeds"
    with assms Inr r show ?thesis
      by (cases "setupNotificationListeners ev") (simp_all add: after_update_check_def Let_def)
  qed
qed

lemma after_update_check_completes:
  assumes "netinfo_fetch ev = Inr c" and "register_push ev = (reg, Proceeds)"
    and "setupNotificationListeners ev = None"
  shows "after_update_check cl ev =
           (before_registration cl c @ reg @
            [SetLoadingMessage ''Finalizing...'', SetupNotificationListeners] @
            pacing (elapsed ev), Returns)"
  using assms by (simp add: after_update_check_def Let_def)

text \<open>The three ways a run of the sequence can go.\<close>

lemma initializeApp_reload:
  "check_for_updates ev = (us, Returns) \<Longrightarrow>
   initializeApp cl ev = SetLoadingMessage ''Loading assets...'' # us"
  by (simp add: initializeApp_def try_block_def)

lemma initializeApp_completes:
  "check_for_updates ev = (us, Proceeds) \<Longrightarrow> after_update_check cl ev = (acts, Returns) \<Longrightarrow>
   initializeApp cl ev = SetLoadingMessage ''Loading assets...'' # us @ acts"
  by (simp add: initializeApp_def try_block_def)

lemma initializeApp_throws:
  "check_for_updates ev = (us, Proceeds) \<Longrightarrow> after_update_check cl ev = (acts, Throws e) \<Longrightarrow>
   initializeApp cl ev = SetLoadingMessage ''Loading assets...'' # us @ acts @ catch_block cl"
  by (simp add: initializeApp_def try_block_def)

lemma initializeApp_ends:
  "initializeApp cl ev \<noteq> [] \<and>
   (last (initializeApp cl ev) = SetIsReady True \<or> last (initializeApp cl ev) = ReloadAsync)"
proof -
  obtain us fl where u: "check_for_updates ev = (us, fl)" by (cases "check_for_updates ev")
  from check_for_updates_flow [of ev] u have "fl = Proceeds \<or> fl = Returns" by simp
  then show ?thesis
  proof
    assume "fl = Returns"
    with u check_for_updates_Returns [of ev us] initializeApp_reload [of ev us cl]
    show ?thesis by simp
  next
    assume p: "fl = Proceeds"
    obtain acts fl' where a: "after_update_check cl ev = (acts, fl')"
      by (cases "after_update_check cl ev")
    from after_update_check_flow [of cl ev] a have "fl' = Returns \<or> (\<exists>e. fl' = Throws e)" by simp
    then show ?thesis
    proof
      assume r: "fl' = Returns"
      from after_update_check_Returns [of cl ev acts] a r
      obtain c reg where "acts = before_registration cl c @ reg @
          [SetLoadingMessage ''Finalizing...'', SetupNotificationListeners] @ pacing (elapsed ev)"
        by auto
      with u p a r initializeApp_completes [of ev us cl acts] last_pacing [of "elapsed ev"]
      show ?thesis by simp
    next
      assume "\<exists>e. fl' = Throws e"
      then obtain e where "fl' = Throws e" ..
      with u p a initializeApp_throws [of ev us cl acts e] last_catch_block [of cl]
      show ?thesis by simp
    qed
  qed
qed

lemma pacing_eq:
  "pacing el =
     (if el < 2000 then [SetLoadingMessage ''Almost ready...'', Sleep (2000 - el)] else []) @
     [SetIsReady True]"
  by (simp add: pacing_def minDisplayTime_def Let_def max_def)

lemma actions_after_split: "a \<notin> set pre \<Longrightarrow> actions_after a (pre @ a # post) = post"
  by (induction pre) (auto simp: actions_after_def)

lemma actions_before_split: "a \<notin> set pre \<Longrightarrow> actions_before a (pre @ a # post) = pre"
  by (induction pre) (auto simp: actions_before_def)

lemma actions_after_absent: "a \<notin> set tr \<Longrightarrow> actions_after a tr = []"
  by (induction tr) (auto simp: actions_after_def)

lemma no_reload_in_wait: "ReloadAsync \<notin> set (auth_wait_loop a t)"
  using set_auth_wait_loop [of a t] by auto

lemma no_reload_after_update_check: "ReloadAsync \<notin> set (fst (after_update_check cl ev))"
  by (simp add: after_update_check_def before_registration_def register_push_def pacing_def
      Let_def no_reload_in_wait split: sum.split option.split)

lemma no_reload_in_catch: "ReloadAsync \<notin> set (catch_block cl) \<and> ReloadAsync \<notin> set (update_catch ev)"
  by (simp add: catch_block_def update_catch_def)

lemma after_update_check_starts: "\<exists>r. fst (after_update_check cl ev) = NetInfoFetch # r"
  by (simp add: after_update_check_def before_registration_def register_push_def Let_def
      split: sum.split option.split)

text \<open>A run whose update check falls through goes on with the connectivity probe.\<close>

lemma initializeApp_proceeds:
  assumes "check_for_updates ev = (us, Proceeds)"
  shows "\<exists>r. initializeApp cl ev = SetLoadingMessage ''Loading assets...'' # us @ NetInfoFetch # r \<and>
             ReloadAsync \<notin> set r"
proof -
  obtain acts fl where a: "after_update_check cl ev = (acts, fl)"
    by (cases "after_update_check cl ev")
  obtain r where r: "acts = NetInfoFetch # r"
    using after_update_check_starts [of cl ev] a by auto
  have nr: "ReloadAsync \<notin> set r"
    using no_reload_after_update_check [of cl ev] a r by simp
  have "initializeApp cl ev = SetLoadingMessage ''Loading assets...'' # us @ NetInfoFetch # r \<or>
        initializeApp cl ev = SetLoadingMessage ''Loading assets...'' # us @ NetInfoFetch # (r @ catch_block cl)"
    using assms a r by (cases fl) (simp_all add: initializeApp_def try_block_def)
  then show ?thesis using nr no_reload_in_catch [of cl ev] by auto
qed

lemma check_for_updates_available:
  assumes "\<not> DEV ev" and "checkForUpdateAsync ev = Inr True"
  shows "check_for_updates ev =
     (let fetched = [SetLoadingMessage ''Checking for updates...'', CheckForUpdateAsync,
                     ConsoleLog ''Update available, fetching...'',
                     SetLoadingMessage ''Downloading update...'', FetchUpdateAsync]
      in case fetchUpdateAsync ev of
           Some e \<Rightarrow> (fetched @ update_catch ev, Proceeds)
         | None \<Rightarrow>
             (case reloadAsync ev of
                Some e \<Rightarrow> (fetched @ [ConsoleLog ''Update downloaded, reloading app...'', ReloadAsync] @ update_catch ev, Proceeds)
              | None \<Rightarrow> (fetched @ [ConsoleLog ''Update downloaded, reloading app...'', ReloadAsync], Returns)))"
  using assms by (simp add: check_for_updates_def Let_def split: option.split)

lemma register_push_throws:
  "(\<exists>e. snd (register_push ev) = Throws e) =
     (registerForPushNotifications ev = Some JNull \<or> registerForPushNotifications ev = Some JUndefined)"
proof (cases "registerForPushNotifications ev")
  case None
  then show ?thesis by (simp add: register_push_def)
next
  case (Some v)
  then show ?thesis by (cases v) (simp_all add: register_push_def)
qed

lemma after_update_check_Throws:
  "(\<exists>acts e. after_update_check cl ev = (acts, Throws e)) =
     ((\<exists>e. netinfo_fetch ev = Inl e) \<or> (\<exists>e. snd (register_push ev) = Throws e) \<or>
      setupNotificationListeners ev \<noteq> None)"
proof (cases "netinfo_fetch ev")
  case (Inl e)
  then show ?thesis by (simp add: after_update_check_def)
next
  case (Inr c)
  obtain reg fl where r: "register_push ev = (reg, fl)" by (cases "register_push ev")
  from register_push_flow [of ev] r have "fl = Proceeds \<or> (\<exists>e. fl = Throws e)" by simp
  then show ?thesis
  proof
    assume "\<exists>e. fl = Throws e"
    with Inr r show ?thesis by (auto simp: after_update_check_def)
  next
    assume "fl = Proceeds"
    with Inr r show ?thesis
      by (cases "setupNotificationListeners ev") (simp_all add: after_update_check_def Let_def)
  qed
qed

lemma no_ready_in_update_check: "SetIsReady b \<notin> set (fst (check_for_updates ev))"
  by (simp add: check_for_updates_def update_catch_def Let_def split: sum.split option.split)

text \<open>
  A rejection of \<open>registerForPushNotifications\<close> with \<open>undefined\<close>: line 310 throws
  and the run ends in the handler, the listeners never set up.
\<close>

lemma unreadable_rejection_reaches_handler:
  "initializeApp \<lparr>c_authChecked = True, c_initialRouteName = Some MainApp\<rparr> register_rejects_env =
     [SetLoadingMessage ''Loading assets...'', NetInfoFetch, Sleep 500,
      SetLoadingMessage ''Checking authentication...'',
      SetLoadingMessage ''Setting up notifications...'', RegisterForPushNotifications,
      ConsoleError ''Error initializing app:'', SetIsReady True]"
  by code_simp

section \<open>Facts about a launch\<close>

lemma set_initializeApp:
  "set (initializeApp cl ev) \<subseteq>
     {SetLoadingMessage ''Loading assets...''} \<union> set (fst (check_for_updates ev)) \<union>
     set (fst (after_update_check cl ev)) \<union> set (catch_block cl)"
  by (auto simp: initializeApp_def try_block_def split: prod.splits flow.splits)

lemma no_auth_write_in_wait: "SetAuthChecked b \<notin> set (auth_wait_loop a t)"
  using set_auth_wait_loop [of a t] by auto

lemma no_auth_write_in_update_check: "SetAuthChecked b \<notin> set (fst (check_for_updates ev))"
  by (simp add: check_for_updates_def update_catch_def Let_def split: sum.split option.split)

lemma no_auth_write_after_update_check: "SetAuthChecked b \<notin> set (fst (after_update_check cl ev))"
  by (simp add: after_update_check_def before_registration_def register_push_def pacing_def
      Let_def no_auth_write_in_wait split: sum.split option.split)

lemma no_auth_write_in_run: "SetAuthChecked b \<notin> set (initializeApp cl ev)"
  using set_initializeApp [of cl ev] no_auth_write_in_update_check [of b ev]
    no_auth_write_after_update_check [of b cl ev]
  by (auto simp: catch_block_def)

lemma authChecked_apply_action:
  assumes "\<forall>b. a \<noteq> SetAuthChecked b"
  shows "authChecked (apply_action a s) = authChecked s"
proof (cases a)
  case (SetAuthChecked x)
  with assms show ?thesis by blast
qed simp_all

lemma auth_callback_checks:
  "auth_callback a c = (acts, c') \<Longrightarrow> authChecked (fold apply_action acts s)"
  by (cases a) (auto simp: set_route_once_def split: if_splits)

lemma run_invariant_launch: "run_invariant (launch envs)"
  by (simp add: run_invariant_def launch_def start_run_def initial_state_def no_auth_write_in_run)

lemma run_invariant_step:
  assumes "run_invariant s"
  shows "run_invariant (step envs e s)"
proof (cases e)
  case (Auth a)
  obtain acts c' where cb: "auth_callback a (listener s) = (acts, c')"
    by (cases "auth_callback a (listener s)")
  have checked: "authChecked (fold apply_action acts (state s))"
    using auth_callback_checks [OF cb] .
  show ?thesis
    using assms checked
    by (auto simp: Auth cb run_invariant_def rerender_def perform_def start_run_def
        resubscribe_def Let_def no_auth_write_in_run)
next
  case (RunStep i)
  show ?thesis
  proof (cases "reloaded s \<or> length (runs s) \<le> i")
    case True
    then show ?thesis using assms by (simp add: RunStep)
  next
    case False
    then have i: "i < length (runs s)" by simp
    show ?thesis
    proof (cases "runs s ! i")
      case Nil
      then show ?thesis using assms False by (simp add: RunStep)
    next
      case (Cons a rest)
      have mem: "a # rest \<in> set (runs s)" using i Cons nth_mem [of i "runs s"] by simp
      have "\<forall>b. SetAuthChecked b \<notin> set (a # rest)"
        using assms mem unfolding run_invariant_def by blast
      then have na: "\<forall>b. a \<noteq> SetAuthChecked b" and nrest: "\<forall>b. SetAuthChecked b \<notin> set rest"
        by auto
      have same: "authChecked (apply_action a (state s)) = authChecked (state s)"
        using authChecked_apply_action [OF na] .
      have upd: "\<forall>r \<in> set ((runs s)[i := rest]). \<forall>b. SetAuthChecked b \<notin> set r"
        using assms nrest set_update_subset_insert [of "runs s" i rest]
        by (auto simp: run_invariant_def)
      show ?thesis
        using assms False Cons same upd
        by (auto simp: RunStep run_invariant_def rerender_def perform_def resubscribe_def Let_def)
    qed
  qed
qed

lemma run_invariant_run_events:
  "run_invariant s \<Longrightarrow> run_invariant (run_events envs evs s)"
  unfolding run_events_def
  by (induction evs arbitrary: s) (simp_all add: run_invariant_step)

text \<open>
  The first run of a launch is the closure of the first render. Whatever the environment
  and whatever the listener has done meanwhile, it polls the full 50 times and, unless it
  ends with the reload, it writes \<open>Login\<close>.
\<close>

lemma first_run_writes_login:
  "last (initializeApp mount_closure ev) = ReloadAsync \<or>
   SetInitialRouteName Login \<in> set (initializeApp mount_closure ev)"
proof -
  obtain us fl where u: "check_for_updates ev = (us, fl)" by (cases "check_for_updates ev")
  from check_for_updates_flow [of ev] u have "fl = Proceeds \<or> fl = Returns" by simp
  then show ?thesis
  proof
    assume "fl = Returns"
    with u check_for_updates_Returns [of ev us] initializeApp_reload [of ev us mount_closure]
    show ?thesis by simp
  next
    assume p: "fl = Proceeds"
    have c: "SetInitialRouteName Login \<in> set (catch_block mount_closure)"
      by (simp add: catch_block_def mount_closure_def)
    have l: "SetInitialRouteName Login \<in> set (before_registration mount_closure b)" for b
      by (simp add: before_registration_def mount_closure_def)
    obtain acts fl' where a: "after_update_check mount_closure ev = (acts, fl')"
      by (cases "after_update_check mount_closure ev")
    from after_update_check_flow [of mount_closure ev] a
    have "fl' = Returns \<or> (\<exists>e. fl' = Throws e)" by simp
    then show ?thesis
    proof
      assume r: "fl' = Returns"
      from after_update_check_Returns [of mount_closure ev acts] a r
      obtain b reg where "acts = before_registration mount_closure b @ reg @
          [SetLoadingMessage ''Finalizing...'', SetupNotificationListeners] @ pacing (elapsed ev)"
        by auto
      with u p a r l [of b] initializeApp_completes [of ev us mount_closure acts]
      show ?thesis by simp
    next
      assume "\<exists>e. fl' = Throws e"
      then obtain e where "fl' = Throws e" ..
      with u p a c initializeApp_throws [of ev us mount_closure acts e]
      show ?thesis by simp
    qed
  qed
qed

section \<open>The poll loop and the display time\<close>

text \<open>
  Claim C9. The wait for the Auth Service ends: the poll loop of lines 294-297 is a total
  function, it sleeps at most 5000/100 = 50 times (exactly 50 times of 100 ms when the
  closure's \<open>authChecked\<close> is false, not at all when it is true), and the run that
  contains it goes on to its last action, which is \<open>setIsReady(true)\<close> or the reload.
\<close>

theorem auth_wait_terminates_within_bound:
  "length (auth_wait_loop checked 0) \<le> 50 \<and>
   auth_wait_loop False 0 = replicate 50 (Sleep 100) \<and>
   auth_wait_loop True 0 = [] \<and>
   initializeApp cl ev \<noteq> [] \<and>
   (last (initializeApp cl ev) = SetIsReady True \<or> last (initializeApp cl ev) = ReloadAsync)"
proof -
  have "length (auth_wait_loop checked 0) \<le> 50"
    by (cases checked) (simp_all add: auth_wait_loop_checked auth_wait_loop_unchecked)
  moreover have "auth_wait_loop False 0 = replicate 50 (Sleep 100)"
    by (simp add: auth_wait_loop_unchecked authCheckInterval_def)
  ultimately show ?thesis
    using initializeApp_ends [of cl ev] by (simp add: auth_wait_loop_checked)
qed

theorem auth_wait_terminates_within_bound_witness:
  "length (auth_wait_loop False 0) \<le> 50 \<and> initializeApp mount_closure quiet_env \<noteq> []"
  using auth_wait_terminates_within_bound [of False mount_closure quiet_env] by blast

text \<open>
  Claim C7, as amended. In a run that reaches line 325 (the update check did not reload,
  the probe answered, the registration step fell through and the listeners were set up)
  with \<open>Date.now() - startTime = e\<close>, what follows the set-up of the notification
  listeners is, when \<open>e < 2000\<close>, the message of line 329 and a sleep of exactly
  \<open>2000 - e\<close> milliseconds and then \<open>setIsReady(true)\<close>, and, when
  \<open>e \<ge> 2000\<close>, \<open>setIsReady(true)\<close> at once. In a run in which an exception
  leaves the \<open>try\<close> block instead, the handler of line 340 follows the throw directly
  and sets \<open>ready\<close> with no pacing. A run that ends with the reload does not set
  \<open>ready\<close>.
\<close>

theorem minimum_display_time:
  "(check_for_updates ev = (us, Proceeds) \<and> netinfo_fetch ev = Inr c \<and>
    register_push ev = (reg, Proceeds) \<and> setupNotificationListeners ev = None \<longrightarrow>
      (\<exists>before. initializeApp cl ev =
         before @ [SetupNotificationListeners] @
         (if elapsed ev < 2000
          then [SetLoadingMessage ''Almost ready...'', Sleep (2000 - elapsed ev)]
          else []) @
         [SetIsReady True])) \<and>
   (check_for_updates ev = (us, Proceeds) \<and> after_update_check cl ev = (acts, Throws e) \<longrightarrow>
      initializeApp cl ev =
        SetLoadingMessage ''Loading assets...'' # us @ acts @
        [ConsoleError ''Error initializing app:''] @
        (if c_initialRouteName cl = None then [SetInitialRouteName Login] else []) @
        [SetIsReady True]) \<and>
   (check_for_updates ev = (us, Returns) \<longrightarrow> SetIsReady True \<notin> set (initializeApp cl ev))"
proof -
  have 1: "\<exists>before. initializeApp cl ev =
         before @ [SetupNotificationListeners] @
         (if elapsed ev < 2000
          then [SetLoadingMessage ''Almost ready...'', Sleep (2000 - elapsed ev)]
          else []) @
         [SetIsReady True]"
    if h: "check_for_updates ev = (us, Proceeds)" "netinfo_fetch ev = Inr c"
      "register_push ev = (reg, Proceeds)" "setupNotificationListeners ev = None"
  proof -
    have a: "after_update_check cl ev =
           (before_registration cl c @ reg @
            [SetLoadingMessage ''Finalizing...'', SetupNotificationListeners] @
            pacing (elapsed ev), Returns)"
      using after_update_check_completes [OF h(2) h(3) h(4)] .
    show ?thesis
      apply (rule exI [of _ "SetLoadingMessage ''Loading assets...'' # us @
               before_registration cl c @ reg @ [SetLoadingMessage ''Finalizing...'']"])
      apply (simp only: initializeApp_completes [OF h(1) a] pacing_eq append_assoc append_Cons
          append_Nil)
      done
  qed
  have 2: "initializeApp cl ev =
        SetLoadingMessage ''Loading assets...'' # us @ acts @
        [ConsoleError ''Error initializing app:''] @
        (if c_initialRouteName cl = None then [SetInitialRouteName Login] else []) @
        [SetIsReady True]"
    if h: "check_for_updates ev = (us, Proceeds)" "after_update_check cl ev = (acts, Throws e)"
    using initializeApp_throws [OF h] by (simp add: catch_block_def)
  have 3: "SetIsReady True \<notin> set (initializeApp cl ev)" if h: "check_for_updates ev = (us, Returns)"
    using initializeApp_reload [OF h, of cl] no_ready_in_update_check [of True ev] h by simp
  from 1 2 3 show ?thesis by blast
qed

theorem minimum_display_time_witness:
  "\<exists>before. initializeApp mount_closure quiet_env =
     before @ [SetupNotificationListeners, SetLoadingMessage ''Almost ready...'', Sleep 1200,
               SetIsReady True]"
proof -
  have 1: "check_for_updates quiet_env = ([], Proceeds)"
    by (simp add: check_for_updates_def quiet_env_def)
  have 2: "netinfo_fetch quiet_env = Inr True" by (simp add: quiet_env_def)
  have 3: "register_push quiet_env =
      ([SetLoadingMessage ''Setting up notifications...'', RegisterForPushNotifications], Proceeds)"
    by (simp add: register_push_def quiet_env_def)
  have 4: "setupNotificationListeners quiet_env = None" by (simp add: quiet_env_def)
  have 5: "elapsed quiet_env = 800" by (simp add: quiet_env_def)
  have h: "check_for_updates quiet_env = ([], Proceeds) \<and> netinfo_fetch quiet_env = Inr True \<and>
      register_push quiet_env =
        ([SetLoadingMessage ''Setting up notifications...'', RegisterForPushNotifications], Proceeds) \<and>
      setupNotificationListeners quiet_env = None"
    using 1 2 3 4 by simp
  from minimum_display_time [of quiet_env "[]" True
      "[SetLoadingMessage ''Setting up notifications...'', RegisterForPushNotifications]"
      mount_closure, THEN conjunct1, THEN mp, OF h]
  obtain before where "initializeApp mount_closure quiet_env =
      before @ [SetupNotificationListeners] @
      (if elapsed quiet_env < 2000
       then [SetLoadingMessage ''Almost ready...'', Sleep (2000 - elapsed quiet_env)]
       else []) @ [SetIsReady True]" ..
  then have "initializeApp mount_closure quiet_env =
      before @ [SetupNotificationListeners, SetLoadingMessage ''Almost ready...'', Sleep 1200,
                SetIsReady True]"
    by (simp only: 5) simp
  then show ?thesis by (rule exI [of _ before])
qed

text \<open>
  The claim as it was stated fails on a run that ends in the handler: when the probe
  rejects, \<open>ready\<close> is set with no timer awaited at all, and a second run in which
  the set-up of the listeners throws sets it after the 500 ms settle delay alone.
\<close>

theorem ready_without_pacing:
  "initializeApp mount_closure (probe_fails_envs 0) =
     [SetLoadingMessage ''Loading assets...'', NetInfoFetch,
      ConsoleError ''Error initializing app:'', SetInitialRouteName Login, SetIsReady True] \<and>
   sleeps (initializeApp \<lparr>c_authChecked = True, c_initialRouteName = Some MainApp\<rparr>
     listeners_fail_env) = [500] \<and>
   last (initializeApp \<lparr>c_authChecked = True, c_initialRouteName = Some MainApp\<rparr>
     listeners_fail_env) = SetIsReady True"
  by code_simp

section \<open>The update check\<close>

text \<open>
  Claim C8, as amended. In a production launch whose startup check finds an update,
  \<open>reloadAsync\<close> is called exactly when \<open>fetchUpdateAsync\<close> did not reject, and
  then \<open>fetchUpdateAsync\<close> was called before it. When \<open>reloadAsync\<close> does not
  reject, the run performs nothing after it: no probe, no delay, no wait, no registration,
  no pacing, and \<open>ready\<close> is not set. When \<open>reloadAsync\<close> rejects, the
  \<open>catch\<close> of line 261 takes the rejection and the sequence goes on with the
  connectivity probe.
\<close>

theorem reload_ends_the_sequence:
  assumes "\<not> DEV ev" and "checkForUpdateAsync ev = Inr True"
  shows "((ReloadAsync \<in> set (initializeApp cl ev)) = (fetchUpdateAsync ev = None)) \<and>
         (ReloadAsync \<in> set (initializeApp cl ev) \<longrightarrow>
            FetchUpdateAsync \<in> set (actions_before ReloadAsync (initializeApp cl ev))) \<and>
         (reloadAsync ev = None \<longrightarrow> actions_after ReloadAsync (initializeApp cl ev) = []) \<and>
         (fetchUpdateAsync ev = None \<and> reloadAsync ev \<noteq> None \<longrightarrow>
            (\<exists>r. actions_after ReloadAsync (initializeApp cl ev) = update_catch ev @ NetInfoFetch # r))"
proof (cases "fetchUpdateAsync ev")
  case (Some e)
  let ?us = "[SetLoadingMessage ''Checking for updates...'', CheckForUpdateAsync,
              ConsoleLog ''Update available, fetching...'',
              SetLoadingMessage ''Downloading update...'', FetchUpdateAsync] @ update_catch ev"
  have "check_for_updates ev = (?us, Proceeds)"
    using check_for_updates_available [OF assms] Some by (simp add: Let_def)
  from initializeApp_proceeds [OF this, of cl]
  obtain r where r: "initializeApp cl ev = SetLoadingMessage ''Loading assets...'' # ?us @ NetInfoFetch # r"
    and nr: "ReloadAsync \<notin> set r" by blast
  have absent: "ReloadAsync \<notin> set (initializeApp cl ev)"
    using nr no_reload_in_catch [of cl ev] by (simp add: r)
  then show ?thesis using Some actions_after_absent [OF absent] by simp
next
  case None
  let ?pre = "[SetLoadingMessage ''Loading assets...'',
               SetLoadingMessage ''Checking for updates...'', CheckForUpdateAsync,
               ConsoleLog ''Update available, fetching...'',
               SetLoadingMessage ''Downloading update...'', FetchUpdateAsync,
               ConsoleLog ''Update downloaded, reloading app...'']"
  have pre: "ReloadAsync \<notin> set ?pre" "FetchUpdateAsync \<in> set ?pre" by simp_all
  show ?thesis
  proof (cases "reloadAsync ev")
    case reload_ok: None
    have "check_for_updates ev = (tl ?pre @ [ReloadAsync], Returns)"
      using check_for_updates_available [OF assms] None reload_ok by (simp add: Let_def)
    from initializeApp_reload [OF this, of cl]
    have tr: "initializeApp cl ev = ?pre @ ReloadAsync # []" by simp
    show ?thesis
      unfolding tr actions_after_split [OF pre(1)] actions_before_split [OF pre(1)]
      using None reload_ok by simp
  next
    case (Some e)
    have "check_for_updates ev = (tl ?pre @ [ReloadAsync] @ update_catch ev, Proceeds)"
      using check_for_updates_available [OF assms] None Some by (simp add: Let_def)
    from initializeApp_proceeds [OF this, of cl]
    obtain r where "initializeApp cl ev =
        SetLoadingMessage ''Loading assets...'' # (tl ?pre @ [ReloadAsync] @ update_catch ev) @ NetInfoFetch # r"
      by blast
    then have tr: "initializeApp cl ev = ?pre @ ReloadAsync # (update_catch ev @ NetInfoFetch # r)"
      by simp
    show ?thesis
      unfolding tr actions_after_split [OF pre(1)] actions_before_split [OF pre(1)]
      using None Some by simp
  qed
qed

theorem reload_ends_the_sequence_witness:
  "ReloadAsync \<in> set (initializeApp mount_closure update_env) \<and>
   FetchUpdateAsync \<in> set (actions_before ReloadAsync (initializeApp mount_closure update_env)) \<and>
   actions_after ReloadAsync (initializeApp mount_closure update_env) = []"
proof -
  have 1: "\<not> DEV update_env" by (simp add: update_env_def quiet_env_def)
  have 2: "checkForUpdateAsync update_env = Inr True" by (simp add: update_env_def quiet_env_def)
  have 3: "fetchUpdateAsync update_env = None" "reloadAsync update_env = None"
    by (simp_all add: update_env_def quiet_env_def)
  show ?thesis
    using reload_ends_the_sequence [OF 1 2, of mount_closure] by (simp add: 3)
qed

text \<open>
  The claim as it was stated fails when \<open>reloadAsync\<close> rejects: the probe and
  \<open>setIsReady(true)\<close> are then performed after the call.
\<close>

theorem steps_after_rejected_reload:
  "\<not> DEV reload_rejects_env \<and> checkForUpdateAsync reload_rejects_env = Inr True \<and>
   NetInfoFetch \<in> set (actions_after ReloadAsync (initializeApp mount_closure reload_rejects_env)) \<and>
   SetIsReady True \<in> set (actions_after ReloadAsync (initializeApp mount_closure reload_rejects_env))"
  by code_simp

section \<open>The error log and the error handlers\<close>




text \<open>
  Claim C10, as amended. A failure of the storage or of the reporter never leaves the
  error capture: the promise of \<open>logErrorToStorage\<close> is never rejected, in any order
  of calls and resumptions, and \<open>handleGlobalError\<close> throws nothing, for every error
  value and every environment. \<open>handleUnhandledRejection\<close> throws nothing either
  when its event is neither \<open>null\<close> nor \<open>undefined\<close> and, in a development build,
  the text of its alert can be computed; \<open>error.message || String(error)\<close> can be
  computed for every value but \<open>null\<close>, \<open>undefined\<close> and an object that has no
  truthy \<open>message\<close> and no conversion to a string.
\<close>

theorem error_capture_propagation:
  "\<not> list_ex task_rejected (tasks (run_log evs (fresh_world store))) \<and>
   fst (snd (run_alone store (snd (logErrorToStorage ev error ctx)))) = Fulfilled \<and>
   thrown (handleGlobalError ev error isFatal) = None \<and>
   (event \<noteq> JNull \<and> event \<noteq> JUndefined \<and>
    (DEV ev \<longrightarrow> (\<exists>error' msg. event_error event = Inr error' \<and> message_text error' = Inr msg)) \<longrightarrow>
      thrown (handleUnhandledRejection ev event) = None) \<and>
   ((\<exists>e. message_text v = Inl e) =
      (v = JNull \<or> v = JUndefined \<or>
       (\<exists>r m st. v = JObject r m st None \<and> (m = None \<or> m = Some []))))"
proof -
  have 1: "\<not> list_ex task_rejected (tasks (run_log evs (fresh_world store)))"
    using never_rejected_run [of "fresh_world store" evs] by (simp add: fresh_world_def)
  have 2: "fst (snd (run_alone store (snd (logErrorToStorage ev error ctx)))) = Fulfilled"
    by (simp add: logErrorToStorage_def run_alone_fulfilled)
  have 3: "thrown (handleGlobalError ev error isFatal) = None"
    by (simp add: handleGlobalError_outcome)
  have 4: "thrown (handleUnhandledRejection ev event) = None"
    if "event \<noteq> JNull" "event \<noteq> JUndefined"
      "DEV ev \<longrightarrow> (\<exists>error' msg. event_error event = Inr error' \<and> message_text error' = Inr msg)"
  proof -
    from that(1,2) obtain error' where ee: "event_error event = Inr error'"
      using event_error_throws [of event] by (cases "event_error event") auto
    with that(3) show ?thesis by (auto simp: handleUnhandledRejection_thrown)
  qed
  from 1 2 3 4 message_text_throws [of v] show ?thesis by blast
qed

theorem error_capture_propagation_witness:
  "thrown (handleGlobalError failing_env JNull True) = None \<and>
   thrown (handleUnhandledRejection failing_env (rejection_of boom)) = None"
proof -
  have 1: "rejection_of boom \<noteq> JNull" "rejection_of boom \<noteq> JUndefined" "\<not> DEV failing_env"
    by (simp_all add: rejection_of_def failing_env_def quiet_env_def)
  show ?thesis
    using error_capture_propagation [of "[]" None failing_env JNull "''Fatal Error''" True
        "rejection_of boom" JNull]
    by (simp add: 1)
qed

text \<open>
  The claim as it was stated fails for \<open>handleUnhandledRejection\<close>: in a development
  build a rejection with a bare object throws a TypeError at line 152, after the error has
  been logged, and a \<open>null\<close> event throws at line 140 in any build.
\<close>

theorem rejection_handler_throws:
  "DEV quiet_env \<and>
   handleUnhandledRejection quiet_env (rejection_of bare_object) =
     \<lparr>performed = [ConsoleError ''Unhandled promise rejection:'', AsyncStorageGetItem],
      started = [AwaitingGetItem quiet_env bare_object ''Unhandled Promise Rejection''],
      thrown = Some TypeError\<rparr> \<and>
   handleUnhandledRejection production_env JNull =
     \<lparr>performed = [], started = [], thrown = Some TypeError\<rparr>"
  by (simp add: handleUnhandledRejection_def event_error_def rejection_of_def bare_object_def
      message_text_def logErrorToStorage_def report_to_sentry_def quiet_env_def Let_def)

text \<open>
  Claim C3, as amended. Every call of the installed handler \<open>handleGlobalError\<close>
  (a) starts one append to the log, which it does not await: run with no other append in
  between, that append stores the log read, followed by the entry of the error, cut to its
  last 50, when the storage can be read and written and the entry can be built, and
  otherwise leaves the log as it was and writes a console line (the entry cannot be built
  exactly when \<open>error.message || String(error)\<close> throws); (b) forwards the error to
  the reporter exactly when the reporter is configured; (c) raises no alert in any build,
  writes its \<open>Fatal error prevented app crash\<close> line for a fatal error in a production
  build, and throws nothing. A call of \<open>handleUnhandledRejection\<close> that does not
  throw starts the append of its error, forwards exactly when the reporter is configured,
  and raises an alert exactly in non-production builds, fatal or not. That second handler
  is never among the installed ones.
\<close>

theorem error_capture_effects:
  "started (handleGlobalError ev error isFatal) =
     [AwaitingGetItem ev error (if isFatal then ''Fatal Error'' else ''Non-Fatal Error'')] \<and>
   AsyncStorageGetItem \<in> set (performed (handleGlobalError ev error isFatal)) \<and>
   (getItem_rejects ev = None \<and> setItem_rejects ev = None \<and> new_entry ev error ctx = Inr entry \<longrightarrow>
      fst (run_alone store (AwaitingGetItem ev error ctx)) =
        Some (slice_last 50 (stored_logs store @ [entry]))) \<and>
   (getItem_rejects ev \<noteq> None \<or> setItem_rejects ev \<noteq> None \<or> (\<exists>e. new_entry ev error ctx = Inl e) \<longrightarrow>
      fst (run_alone store (AwaitingGetItem ev error ctx)) = store \<and>
      ConsoleError ''Failed to log error to storage:'' \<in>
        set (snd (snd (run_alone store (AwaitingGetItem ev error ctx))))) \<and>
   ((\<exists>e. new_entry ev error ctx = Inl e) = (\<exists>e. message_text error = Inl e)) \<and>
   ((SentryCaptureException \<in> set (performed (handleGlobalError ev error isFatal))) = SENTRY_DSN ev) \<and>
   (\<forall>t m. AlertAlert t m \<notin> set (performed (handleGlobalError ev error isFatal))) \<and>
   (isFatal \<and> \<not> DEV ev \<longrightarrow>
      ConsoleError ''Fatal error prevented app crash'' \<in>
        set (performed (handleGlobalError ev error isFatal))) \<and>
   thrown (handleGlobalError ev error isFatal) = None \<and>
   (thrown (handleUnhandledRejection ev event) = None \<longrightarrow>
      (\<exists>error'. event_error event = Inr error' \<and>
         started (handleUnhandledRejection ev event) =
           [AwaitingGetItem ev error' ''Unhandled Promise Rejection'']) \<and>
      ((SentryCaptureException \<in> set (performed (handleUnhandledRejection ev event))) = SENTRY_DSN ev) \<and>
      ((\<exists>m. AlertAlert ''Unhandled Error'' m \<in> set (performed (handleUnhandledRejection ev event))) =
         DEV ev)) \<and>
   HandleUnhandledRejection \<notin> set (installed_handlers errorUtils_defined)"
proof -
  have e: "(\<exists>e. new_entry ev error ctx = Inl e) = (\<exists>e. message_text error = Inl e)"
  proof (cases error)
    case (JObject r m st s)
    then show ?thesis by (auto simp: new_entry_def split: sum.splits)
  qed (simp_all add: new_entry_def message_text_def)
  have g: "started (handleGlobalError ev error isFatal) =
      [AwaitingGetItem ev error (if isFatal then ''Fatal Error'' else ''Non-Fatal Error'')] \<and>
    AsyncStorageGetItem \<in> set (performed (handleGlobalError ev error isFatal)) \<and>
    ((SentryCaptureException \<in> set (performed (handleGlobalError ev error isFatal))) = SENTRY_DSN ev) \<and>
    (\<forall>t m. AlertAlert t m \<notin> set (performed (handleGlobalError ev error isFatal))) \<and>
    (isFatal \<and> \<not> DEV ev \<longrightarrow>
      ConsoleError ''Fatal error prevented app crash'' \<in>
        set (performed (handleGlobalError ev error isFatal))) \<and>
    thrown (handleGlobalError ev error isFatal) = None"
    by (simp add: handleGlobalError_outcome report_to_sentry_capture report_to_sentry_no_alert)
  have r: "(\<exists>error'. event_error event = Inr error' \<and>
         started (handleUnhandledRejection ev event) =
           [AwaitingGetItem ev error' ''Unhandled Promise Rejection'']) \<and>
      ((SentryCaptureException \<in> set (performed (handleUnhandledRejection ev event))) = SENTRY_DSN ev) \<and>
      ((\<exists>m. AlertAlert ''Unhandled Error'' m \<in> set (performed (handleUnhandledRejection ev event))) =
         DEV ev)"
    if t: "thrown (handleUnhandledRejection ev event) = None"
  proof -
    from t obtain error' where ee: "event_error event = Inr error'"
      and ok: "DEV ev \<longrightarrow> (\<exists>msg. message_text error' = Inr msg)"
      using handleUnhandledRejection_thrown [of ev event] by blast
    show ?thesis
    proof (cases "DEV ev")
      case False
      with ee handleUnhandledRejection_returns [of event error' ev "[]"] show ?thesis
        by (simp add: report_to_sentry_capture report_to_sentry_no_alert)
    next
      case True
      with ok obtain msg where "message_text error' = Inr msg" by blast
      with ee True handleUnhandledRejection_returns [of event error' ev msg] show ?thesis
        by (simp add: report_to_sentry_capture report_to_sentry_no_alert)
    qed
  qed
  have a: "getItem_rejects ev = None \<and> setItem_rejects ev = None \<and> new_entry ev error ctx = Inr entry \<longrightarrow>
      fst (run_alone store (AwaitingGetItem ev error ctx)) =
        Some (slice_last 50 (stored_logs store @ [entry]))"
    using run_alone_appends [of ev error ctx entry store] by simp
  have f: "getItem_rejects ev \<noteq> None \<or> setItem_rejects ev \<noteq> None \<or> (\<exists>e. new_entry ev error ctx = Inl e) \<longrightarrow>
      fst (run_alone store (AwaitingGetItem ev error ctx)) = store \<and>
      ConsoleError ''Failed to log error to storage:'' \<in>
        set (snd (snd (run_alone store (AwaitingGetItem ev error ctx))))"
    using run_alone_fails [of ev error ctx store] by blast
  have i: "HandleUnhandledRejection \<notin> set (installed_handlers errorUtils_defined)"
    by (simp add: installed_handlers_def)
  from g r a f e i show ?thesis by blast
qed

theorem error_capture_effects_witness:
  "fst (run_alone None (AwaitingGetItem production_env boom ''Fatal Error'')) =
     Some (slice_last 50 (stored_logs None @ [boom_entry ''Fatal Error''])) \<and>
   SentryCaptureException \<in> set (performed (handleGlobalError production_env boom True)) \<and>
   ConsoleError ''Fatal error prevented app crash'' \<in>
     set (performed (handleGlobalError production_env boom True)) \<and>
   started (handleUnhandledRejection production_env (rejection_of boom)) =
     [AwaitingGetItem production_env boom ''Unhandled Promise Rejection'']"
proof -
  have e: "getItem_rejects production_env = None" "setItem_rejects production_env = None"
    "SENTRY_DSN production_env" "\<not> DEV production_env"
    by (simp_all add: production_env_def quiet_env_def)
  have n: "new_entry production_env boom ''Fatal Error'' = Inr (boom_entry ''Fatal Error'')"
    by (simp add: new_entry_def message_text_def boom_def boom_entry_def production_env_def
        quiet_env_def)
  have ee: "event_error (rejection_of boom) = Inr boom"
    by (simp add: event_error_def rejection_of_def boom_def)
  have t: "thrown (handleUnhandledRejection production_env (rejection_of boom)) = None"
    using handleUnhandledRejection_returns [OF ee, of production_env "[]"] e by simp
  show ?thesis
    using error_capture_effects [of production_env boom True "''Fatal Error''"
        "boom_entry ''Fatal Error''" None "rejection_of boom"]
    by (simp add: e n ee t)
qed

text \<open>
  The claim as it was stated fails in a development build: a fatal error handed to the
  installed handler is logged and no alert is raised.
\<close>

theorem dev_fatal_error_gets_no_alert:
  "DEV quiet_env \<and>
   handleGlobalError quiet_env boom True =
     \<lparr>performed = [ConsoleError ''Global error caught:'', AsyncStorageGetItem],
      started = [AwaitingGetItem quiet_env boom ''Fatal Error''], thrown = None\<rparr>"
  by (simp add: handleGlobalError_outcome report_to_sentry_def quiet_env_def)

section \<open>The launch as a whole\<close>

text \<open>
  Claim C4, as amended. The startup sequence is started once at launch and once more
  when \<open>authChecked\<close> changes, which it does only from false to true: after any
  events whatever, one run has been started while \<open>authChecked\<close> is false and two
  once it is true, and never a third.
\<close>

theorem startup_runs_at_most_twice:
  "length (runs (run_events envs evs (launch envs))) =
     (if authChecked (state (run_events envs evs (launch envs))) then 2 else 1) \<and>
   length (runs (run_events envs evs (launch envs))) \<le> 2"
  using run_invariant_run_events [OF run_invariant_launch, of envs evs envs]
  by (simp add: run_invariant_def)

theorem startup_runs_at_most_twice_witness:
  "length (runs (run_events two_run_envs late_user_until_ready (launch two_run_envs))) \<le> 2"
  using startup_runs_at_most_twice [of two_run_envs late_user_until_ready] by blast

text \<open>
  The claim as it was stated fails as soon as the Auth Service delivers anything: in the
  launch below both runs perform the whole sequence, so the probe, the registration and
  the set-up of the listeners each happen twice.
\<close>

theorem startup_sequence_runs_twice:
  "runs (run_events two_run_envs (early_user_until_ready @ first_run_rest) (launch two_run_envs)) =
     [[], []] \<and>
   count_list (executed (run_events two_run_envs (early_user_until_ready @ first_run_rest)
     (launch two_run_envs))) NetInfoFetch = 2 \<and>
   count_list (executed (run_events two_run_envs (early_user_until_ready @ first_run_rest)
     (launch two_run_envs))) RegisterForPushNotifications = 2 \<and>
   count_list (executed (run_events two_run_envs (early_user_until_ready @ first_run_rest)
     (launch two_run_envs))) SetupNotificationListeners = 2"
  by code_simp

text \<open>
  Claim C1 says that \<open>initialRoute\<close> is written at most once and never after
  \<open>ready\<close>. The code does otherwise in the launch below: the user is delivered at
  about 300 ms and the listener writes \<open>MainApp\<close>; the second run sets \<open>isReady\<close>;
  the first run, whose closure still holds \<open>initialRouteName = null\<close>, then passes
  the test of line 300 and writes \<open>Login\<close>. The route is written twice, the second
  time after \<open>isReady\<close> is true.
\<close>

theorem route_rewritten_after_ready:
  "isReady (state (run_events two_run_envs early_user_until_ready (launch two_run_envs))) \<and>
   initialRouteName (state (run_events two_run_envs early_user_until_ready (launch two_run_envs))) =
     Some MainApp \<and>
   initialRouteName (state (run_events two_run_envs first_run_rest
     (run_events two_run_envs early_user_until_ready (launch two_run_envs)))) = Some Login \<and>
   route_writes (executed (run_events two_run_envs first_run_rest
     (run_events two_run_envs early_user_until_ready (launch two_run_envs)))) = [MainApp, Login]"
  by code_simp

text \<open>
  Claim C2 says that a user delivered before the bounded wait elapses gives the route
  \<open>MainApp\<close>. The code does otherwise in the launch below: the user is delivered
  during the first run's 46th poll and the listener writes \<open>MainApp\<close>; the first run
  finishes its wait, writes \<open>Login\<close> over it (its closure holds
  \<open>initialRouteName = null\<close>) and sets \<open>isReady\<close>, so the navigator is first
  rendered with \<open>Login\<close>; nothing later writes the route again.
\<close>

theorem user_in_time_routed_to_login:
  "route_writes
     (executed (run_events two_run_envs (replicate 49 (RunStep 0) @ [Auth User]) (launch two_run_envs))) =
     [MainApp] \<and>
   isReady (state (run_events two_run_envs late_user_until_ready (launch two_run_envs))) \<and>
   initialRouteName (state (run_events two_run_envs late_user_until_ready (launch two_run_envs))) =
     Some Login \<and>
   initialRouteName (state (run_events two_run_envs late_user_rest
     (run_events two_run_envs late_user_until_ready (launch two_run_envs)))) = Some Login \<and>
   runs (run_events two_run_envs late_user_rest
     (run_events two_run_envs late_user_until_ready (launch two_run_envs))) = [[], []]"
  by code_simp

text \<open>
  Claim C6 says that the handler of the sequence leaves a route that is already set as
  it is. The code does otherwise in the launch below: the listener has written
  \<open>MainApp\<close> when the probe of the first run rejects; the handler tests the closure's
  \<open>initialRouteName\<close>, which is \<open>null\<close>, and writes \<open>Login\<close>.
\<close>

theorem handler_overwrites_route:
  "initialRouteName (state (run_events probe_fails_envs user_then_probe_fails (launch probe_fails_envs))) =
     Some MainApp \<and>
   runs (run_events probe_fails_envs user_then_probe_fails (launch probe_fails_envs)) ! 0 =
     catch_block mount_closure \<and>
   initialRouteName (state (run_events probe_fails_envs handler_of_first_run
     (run_events probe_fails_envs user_then_probe_fails (launch probe_fails_envs)))) = Some Login \<and>
   isReady (state (run_events probe_fails_envs handler_of_first_run
     (run_events probe_fails_envs user_then_probe_fails (launch probe_fails_envs))))"
  by code_simp

end
